theory Spec2Isabelle
  imports Complex_Main "HOL-Library.Word"
begin

section \<open>JavaScript strings\<close>

text \<open>
  A JavaScript string is a sequence of UTF-16 code units. \<open>js\<close> writes a literal of
  the source (ASCII) as such a sequence.
\<close>

type_synonym js_string = "16 word list"

definition js :: "string \<Rightarrow> js_string" where
  "js s = map (\<lambda>c. of_nat (of_char c)) s"

text \<open>
  \<open>String.prototype.trim\<close> strips the code units that ECMAScript calls WhiteSpace
  (TAB, VT, FF, SP, NBSP, ZWNBSP and the Unicode space separators) or LineTerminator
  (LF, CR, LS, PS) from both ends.
\<close>

definition isWhiteSpace :: "16 word \<Rightarrow> bool" where
  "isWhiteSpace c \<longleftrightarrow>
     c = 0x0009 \<or> c = 0x000B \<or> c = 0x000C \<or> c = 0x0020 \<or> c = 0x00A0 \<or> c = 0xFEFF \<or>
     c = 0x1680 \<or> (0x2000 \<le> c \<and> c \<le> 0x200A) \<or> c = 0x202F \<or> c = 0x205F \<or> c = 0x3000 \<or>
     c = 0x000A \<or> c = 0x000D \<or> c = 0x2028 \<or> c = 0x2029"

definition trim :: "js_string \<Rightarrow> js_string" where
  "trim s = rev (dropWhile isWhiteSpace (rev (dropWhile isWhiteSpace s)))"

text \<open>
  \<open>xs[i]\<close> on a string or an array: the element at index \<open>i\<close>, \<open>undefined\<close>
  (here \<open>None\<close>) out of range.
\<close>

definition index :: "'a list \<Rightarrow> nat \<Rightarrow> 'a option" where
  "index s i = (if i < length s then Some (s ! i) else None)"


section \<open>isValidJson\<close>

text \<open>
  \<open>JSON.parse\<close> is the engine's; \<open>isValidJson\<close> only looks at whether it returns
  (\<open>Inr\<close>) or throws (\<open>Inl\<close>), so it is a parameter here.
\<close>

definition isValidJson :: "(js_string \<Rightarrow> 'e + 'v) \<Rightarrow> js_string \<Rightarrow> bool" where
  "isValidJson JSON_parse value =
     (if value = [] \<or> length value = 0 then True
      else
        let trimmedValue = trim value in
        if length trimmedValue = 0 then True
        else if index trimmedValue 0 = Some 0x7B \<or> index trimmedValue 0 = Some 0x5B then
          (case JSON_parse trimmedValue of Inr _ \<Rightarrow> True | Inl _ \<Rightarrow> False)
        else False)"


section \<open>The rule-status route\<close>

text \<open>
  \<open>createFindRulesStatusRoute\<close>. The saved-objects store is outside the program: its
  \<open>find\<close> is a function of the options and of the store's state, which returns the
  page found or the error it rejects with, and the state after the call. The state is
  threaded through the calls in the order the handler issues them: the store answers
  each fetch as of the moment it is issued. A store whose answers do not depend on its
  state is the special case of the spec's "fixed store state". Of a saved object only
  \<open>attributes\<close> is read, and of a page only \<open>saved_objects\<close>. Rule ids and the other
  strings of this route are only compared and passed on.
\<close>

record find_options =
  type :: string
  perPage :: nat
  sortField :: string
  sortOrder :: string
  search :: string
  searchFields :: "string list"

record 'a saved_object =
  attributes :: 'a

record 'a find_response =
  saved_objects :: "'a saved_object list"

record ('s, 'e, 'a, 'c) clients =
  alertsClient :: "'c option"
  savedObjectsClient_find :: "find_options \<Rightarrow> 's \<Rightarrow> ('e + 'a find_response) \<times> 's"

record find_rules_statuses_query =
  ids :: "string list"

record find_rules_statuses_request =
  query :: find_rules_statuses_query

record 'b rule_status =
  current_status :: "'b option"
  failures :: "'b option list"

record output_error =
  message :: string
  statusCode :: nat

text \<open>
  What the handler answers: \<open>headers.response().code(c)\<close>, the returned \<open>statuses\<close>
  object, or \<open>headers.response({message, status_code}).code(c)\<close>.
\<close>

datatype 'b hapi_response =
    Response_code nat
  | Returned "string \<rightharpoonup> 'b rule_status"
  | Response_error string nat nat

definition find_options_for :: "string \<Rightarrow> string \<Rightarrow> find_options" where
  "find_options_for ruleStatusSavedObjectType id' =
     \<lparr> type = ruleStatusSavedObjectType, perPage = 6, sortField = ''statusDate'',
       sortOrder = ''desc'', search = id', searchFields = [''alertId''] \<rparr>"

text \<open>
  The body of the reducer after its first \<open>await\<close>: \<open>found\<close> is what the \<open>find\<close> of this
  id settled to, \<open>acc\<close> what the promise of the previous ids settled to. The \<open>find\<close> is
  awaited first, so its rejection wins over the accumulator's. \<open>convertToSnakeCase\<close>
  (imported from \<open>../utils\<close>) is a parameter: it takes the attributes or \<open>undefined\<close>
  and returns the converted attributes or \<open>null\<close>.
\<close>

definition callback ::
  "('a option \<Rightarrow> 'b option) \<Rightarrow> string \<Rightarrow> 'e + 'a find_response \<Rightarrow>
   'e + (string \<rightharpoonup> 'b rule_status) \<Rightarrow> 'e + (string \<rightharpoonup> 'b rule_status)" where
  "callback convertToSnakeCase id' found acc =
     (case found of
        Inl err \<Rightarrow> Inl err
      | Inr lastFiveErrorsForId \<Rightarrow>
          (case acc of
             Inl err \<Rightarrow> Inl err
           | Inr accumulated \<Rightarrow>
               let currentStatus =
                     convertToSnakeCase
                       (map_option attributes (index (saved_objects lastFiveErrorsForId) 0));
                   failures' =
                     map (\<lambda>errorItem. convertToSnakeCase (Some (attributes errorItem)))
                       (drop 1 (saved_objects lastFiveErrorsForId))
               in Inr (accumulated(id' \<mapsto>
                    \<lparr> current_status = currentStatus, failures = failures' \<rparr>))))"

text \<open>
  \<open>query.ids.reduce(async (acc, id) => ..., Promise.resolve({}))\<close>: the reducer is called
  for each id in order, and each call issues its \<open>find\<close> before it returns its promise, so
  every id is fetched, whether an earlier fetch fails or not.
\<close>

fun reduce_ids ::
  "(find_options \<Rightarrow> 's \<Rightarrow> ('e + 'a find_response) \<times> 's) \<Rightarrow> ('a option \<Rightarrow> 'b option) \<Rightarrow>
   string \<Rightarrow> string list \<Rightarrow> 'e + (string \<rightharpoonup> 'b rule_status) \<Rightarrow> 's \<Rightarrow>
   ('e + (string \<rightharpoonup> 'b rule_status)) \<times> 's" where
  "reduce_ids find' convertToSnakeCase ruleStatusSavedObjectType [] acc s = (acc, s)"
| "reduce_ids find' convertToSnakeCase ruleStatusSavedObjectType (id' # rest) acc s =
     (case find' (find_options_for ruleStatusSavedObjectType id') s of
        (found, s') \<Rightarrow>
          reduce_ids find' convertToSnakeCase ruleStatusSavedObjectType rest
            (callback convertToSnakeCase id' found acc) s')"

text \<open>
  The handler. \<open>getClients\<close> is awaited outside the \<open>try\<close>: when it rejects, so does the
  handler (\<open>Inl\<close>). \<open>transformError\<close> (imported from \<open>../utils\<close>) and the constant
  \<open>ruleStatusSavedObjectType\<close> are parameters.
\<close>

definition handler ::
  "(find_rules_statuses_request \<Rightarrow> 'e + ('s, 'e, 'a, 'c) clients) \<Rightarrow> ('e \<Rightarrow> output_error) \<Rightarrow>
   ('a option \<Rightarrow> 'b option) \<Rightarrow> string \<Rightarrow> find_rules_statuses_request \<Rightarrow> 's \<Rightarrow>
   ('e + 'b hapi_response) \<times> 's" where
  "handler getClients transformError convertToSnakeCase ruleStatusSavedObjectType request s =
     (case getClients request of
        Inl err \<Rightarrow> (Inl err, s)
      | Inr cl \<Rightarrow>
          (case alertsClient cl of
             None \<Rightarrow> (Inr (Response_code 404), s)
           | Some _ \<Rightarrow>
               (case reduce_ids (savedObjectsClient_find cl) convertToSnakeCase
                       ruleStatusSavedObjectType (ids (query request)) (Inr Map.empty) s of
                  (Inr statuses, s') \<Rightarrow> (Inr (Returned statuses), s')
                | (Inl err, s') \<Rightarrow>
                    let error = transformError err
                    in (Inr (Response_error (message error) (statusCode error)
                              (statusCode error)), s'))))"

text \<open>
  For the statements below: the answers of the store to the handler's fetches for
  \<open>ids\<close>, one per position of \<open>ids\<close>, and the state of the store after them.
\<close>

fun fetches ::
  "(find_options \<Rightarrow> 's \<Rightarrow> ('e + 'a find_response) \<times> 's) \<Rightarrow> string \<Rightarrow> string list \<Rightarrow> 's \<Rightarrow>
   ('e + 'a find_response) list \<times> 's" where
  "fetches find' ruleStatusSavedObjectType [] s = ([], s)"
| "fetches find' ruleStatusSavedObjectType (id' # rest) s =
     (case find' (find_options_for ruleStatusSavedObjectType id') s of
        (found, s') \<Rightarrow>
          (case fetches find' ruleStatusSavedObjectType rest s' of
             (founds, s'') \<Rightarrow> (found # founds, s'')))"

text \<open>
  Modelled from the spec: \<open>convertToSnakeCase\<close> is imported from \<open>../utils\<close>, which is
  not among the sources. The spec has the current status "absent if no records exist for
  that id", so the helper gives \<open>null\<close> on \<open>undefined\<close>; on an attributes object it
  renames the keys, which \<open>snake_keys\<close> stands for. The handler above takes the helper as
  a parameter; this is the helper to pass where a statement depends on what it returns.
\<close>

definition convertToSnakeCase :: "('a \<Rightarrow> 'b) \<Rightarrow> 'a option \<Rightarrow> 'b option" where
  "convertToSnakeCase snake_keys obj = map_option snake_keys obj"

subsection \<open>A store to run the handler on\<close>

text \<open>
  The store counts the fetches it has answered. \<open>rule-1\<close> has three status records, and
  a fourth, newer one from the third fetch on; \<open>rule-2\<close> has none; the fetch for any
  other id is rejected with the id as the error.
\<close>

definition example_page :: "string list \<Rightarrow> string find_response" where
  "example_page xs = \<lparr> saved_objects = map (\<lambda>x. \<lparr> attributes = x \<rparr>) xs \<rparr>"

definition example_find :: "find_options \<Rightarrow> nat \<Rightarrow> (string + string find_response) \<times> nat" where
  "example_find opts n =
     (if search opts = ''rule-1'' then
        Inr (example_page ((if n < 2 then [] else [''r1z'']) @ [''r1a'', ''r1b'', ''r1c'']))
      else if search opts = ''rule-2'' then Inr (example_page [])
      else Inl (search opts),
      Suc n)"

definition example_getClients ::
  "bool \<Rightarrow> find_rules_statuses_request \<Rightarrow> string + (nat, string, string, unit) clients" where
  "example_getClients alerting request =
     Inr \<lparr> alertsClient = (if alerting then Some () else None),
           savedObjectsClient_find = example_find \<rparr>"

definition example_transformError :: "string \<Rightarrow> output_error" where
  "example_transformError err = \<lparr> message = err, statusCode = 500 \<rparr>"

definition example_request :: "string list \<Rightarrow> find_rules_statuses_request" where
  "example_request ks = \<lparr> query = \<lparr> ids = ks \<rparr> \<rparr>"

lemmas example_defs = example_page_def example_find_def example_getClients_def example_transformError_def
  example_request_def find_options_for_def

section \<open>The annotation routes\<close>

text \<open>
  \<open>annotationRoutes\<close> registers three handlers, each wrapped by
  \<open>licensePreRoutingFactory\<close>; the handlers themselves are modelled here. What they call is
  outside the sources and is a parameter: the annotation service that
  \<open>annotationServiceProvider(context)\<close> returns, \<open>isAnnotationsFeatureAvailable\<close>,
  \<open>wrapError\<close>, \<open>Boom.badRequest\<close>, \<open>i18n.translate\<close>, the security plugin's
  \<open>getCurrentUser\<close> and the constant \<open>ANNOTATION_USER_UNKNOWN\<close>. The asynchronous calls
  take the state of the world outside the handler and return the value they resolve to
  (\<open>Inr\<close>) or the error they reject with (\<open>Inl\<close>), and the state after the call.
  \<open>getCurrentUser\<close> is synchronous and returns the user or \<open>null\<close>; \<open>context.ml\<close> is
  taken to be there, as the source asserts with \<open>context.ml!\<close>.
\<close>

record ('s, 'e, 'q, 'a, 'r) annotation_service =
  getAnnotations :: "'q \<Rightarrow> 's \<Rightarrow> ('e + 'r) \<times> 's"
  indexAnnotation :: "'a \<Rightarrow> string \<Rightarrow> 's \<Rightarrow> ('e + 'r) \<times> 's"
  deleteAnnotation :: "string \<Rightarrow> 's \<Rightarrow> ('e + 'r) \<times> 's"

record authenticated_user =
  username :: string

record 'b kibana_request =
  body :: 'b

record delete_annotation_params =
  annotationId :: string

record delete_annotation_request =
  params :: delete_annotation_params

record ('s, 'e, 'w, 'a) ml_imports =
  isAnnotationsFeatureAvailable :: "'s \<Rightarrow> ('e + bool) \<times> 's"
  wrapError :: "'e \<Rightarrow> 'w"
  Boom_badRequest :: "string \<Rightarrow> 'e"
  i18n_translate :: "string \<Rightarrow> string \<Rightarrow> string"
  getCurrentUser :: "'a kibana_request \<Rightarrow> authenticated_user option"
  ANNOTATION_USER_UNKNOWN :: string

text \<open>What a handler answers: \<open>response.ok({body})\<close> or \<open>response.customError(...)\<close>.\<close>

datatype ('r, 'w) kibana_response = response_ok 'r | response_customError 'w

definition getAnnotationsFeatureUnavailableErrorMessage :: "('s, 'e, 'w, 'a) ml_imports \<Rightarrow> 'e" where
  "getAnnotationsFeatureUnavailableErrorMessage deps =
     Boom_badRequest deps
       (i18n_translate deps
          ''xpack.ml.routes.annotations.annotationsFeatureUnavailableErrorMessage''
          (''Index and aliases required for the annotations feature have not been'' @
           '' created or are not accessible for the current user.''))"

text \<open>\<open>x || y\<close> where \<open>x\<close> is a string or \<open>undefined\<close>: \<open>y\<close> when \<open>x\<close> is falsy.\<close>

definition or_else :: "string option \<Rightarrow> string \<Rightarrow> string" where
  "or_else x y = (case x of None \<Rightarrow> y | Some v \<Rightarrow> if v = [] then y else v)"

definition getAnnotations_handler ::
  "('s, 'e, 'w, 'a) ml_imports \<Rightarrow> ('s, 'e, 'q, 'a, 'r) annotation_service \<Rightarrow>
   'q kibana_request \<Rightarrow> 's \<Rightarrow> ('r, 'w) kibana_response \<times> 's" where
  "getAnnotations_handler deps service request s =
     (case getAnnotations service (body request) s of
        (Inr resp, s') \<Rightarrow> (response_ok resp, s')
      | (Inl e, s') \<Rightarrow> (response_customError (wrapError deps e), s'))"

text \<open>
  \<open>getCurrentUser(request) || {}\<close>: the user, or an object with no \<open>username\<close>, whose
  \<open>username\<close> is then \<open>undefined\<close>.
\<close>

definition indexAnnotation_handler ::
  "('s, 'e, 'w, 'a) ml_imports \<Rightarrow> ('s, 'e, 'q, 'a, 'r) annotation_service \<Rightarrow>
   'a kibana_request \<Rightarrow> 's \<Rightarrow> ('r, 'w) kibana_response \<times> 's" where
  "indexAnnotation_handler deps service request s =
     (case isAnnotationsFeatureAvailable deps s of
        (Inl e, s') \<Rightarrow> (response_customError (wrapError deps e), s')
      | (Inr annotationsFeatureAvailable, s') \<Rightarrow>
          if annotationsFeatureAvailable = False then
            (response_customError
               (wrapError deps (getAnnotationsFeatureUnavailableErrorMessage deps)), s')
          else
            let user = getCurrentUser deps request in
            (case indexAnnotation service (body request)
                    (or_else (map_option username user) (ANNOTATION_USER_UNKNOWN deps)) s' of
               (Inr resp, s'') \<Rightarrow> (response_ok resp, s'')
             | (Inl e, s'') \<Rightarrow> (response_customError (wrapError deps e), s'')))"

definition deleteAnnotation_handler ::
  "('s, 'e, 'w, 'a) ml_imports \<Rightarrow> ('s, 'e, 'q, 'a, 'r) annotation_service \<Rightarrow>
   delete_annotation_request \<Rightarrow> 's \<Rightarrow> ('r, 'w) kibana_response \<times> 's" where
  "deleteAnnotation_handler deps service request s =
     (case isAnnotationsFeatureAvailable deps s of
        (Inl e, s') \<Rightarrow> (response_customError (wrapError deps e), s')
      | (Inr annotationsFeatureAvailable, s') \<Rightarrow>
          if annotationsFeatureAvailable = False then
            (response_customError
               (wrapError deps (getAnnotationsFeatureUnavailableErrorMessage deps)), s')
          else
            let annotationId' = annotationId (params request) in
            (case deleteAnnotation service annotationId' s' of
               (Inr resp, s'') \<Rightarrow> (response_ok resp, s'')
             | (Inl e, s'') \<Rightarrow> (response_customError (wrapError deps e), s'')))"


subsection \<open>A service to run the handlers on\<close>

text \<open>
  The state is the log of the calls made so far. The service fails on the annotation,
  the search or the id \<open>bad\<close>.
\<close>

definition example_service :: "(string list, string, string, string, string) annotation_service" where
  "example_service =
     \<lparr> getAnnotations = (\<lambda>q s.
         (if q = ''bad'' then Inl ''search failed'' else Inr (''annotations of '' @ q),
          s @ [''getAnnotations''])),
       indexAnnotation = (\<lambda>a user s.
         (if a = ''bad'' then Inl ''index failed'' else Inr (''indexed for '' @ user),
          s @ [''indexAnnotation''])),
       deleteAnnotation = (\<lambda>i s.
         (if i = ''bad'' then Inl ''delete failed'' else Inr (''deleted '' @ i),
          s @ [''deleteAnnotation''])) \<rparr>"

definition example_imports ::
  "string + bool \<Rightarrow> authenticated_user option \<Rightarrow>
   (string list, string, string \<times> nat, string) ml_imports" where
  "example_imports available user =
     \<lparr> isAnnotationsFeatureAvailable = (\<lambda>s. (available, s @ [''isAnnotationsFeatureAvailable''])),
       wrapError = (\<lambda>e. (e, if take 4 e = ''400 '' then 400 else 500)),
       Boom_badRequest = (\<lambda>m. ''400 '' @ m),
       i18n_translate = (\<lambda>key defaultMessage. defaultMessage),
       getCurrentUser = (\<lambda>request. user),
       ANNOTATION_USER_UNKNOWN = ''<user unknown>'' \<rparr>"

lemmas example_routes_defs = example_service_def example_imports_def

section \<open>toAngularJSON\<close>

text \<open>
  The values \<open>toAngularJSON\<close> is modelled on: the primitives (a BigInt among them),
  functions (known by a number, so that the engine can call them), arrays, plain objects
  as the list of their own enumerable string-keyed data properties in order, and the two
  host objects the replacer looks for, \<open>window\<close> and \<open>window.document\<close>. Values are
  trees: a structure that contains itself is not among them, so an object is \<open>===\<close>
  to a property of its own only when it is \<open>window\<close>. Accessors, inherited and
  non-enumerable properties, boxed primitives and symbols are outside the model too. A
  number is a real, an infinity or NaN (the doubles are among them; \<open>-0\<close> is
  \<open>Finite 0\<close>).
\<close>

datatype js_number = NaN | PosInfinity | NegInfinity | Finite real

datatype js_value =
    Undefined
  | Null
  | Boolean bool
  | Number js_number
  | BigInt int
  | String js_string
  | Function nat
  | Array "js_value list"
  | Object "(js_string \<times> js_value) list"
  | Window
  | Document



fun ToBoolean :: "js_value \<Rightarrow> bool" where
  "ToBoolean Undefined = False"
| "ToBoolean Null = False"
| "ToBoolean (Boolean b) = b"
| "ToBoolean (Number n) = (n \<noteq> NaN \<and> n \<noteq> Finite 0)"
| "ToBoolean (BigInt i) = (i \<noteq> 0)"
| "ToBoolean (String s) = (s \<noteq> [])"
| "ToBoolean _ = True"


text \<open>
  \<open>obj.k\<close> on a value that is not \<open>undefined\<close> or \<open>null\<close> (the source reads a
  property only behind \<open>obj &&\<close>, and \<open>JSON.stringify\<close> reads \<open>toJSON\<close> only of
  objects and BigInts).
\<close>

fun get :: "js_value \<Rightarrow> js_string \<Rightarrow> js_value" where
  "get (Object props) k = (case map_of props k of Some v \<Rightarrow> v | None \<Rightarrow> Undefined)"
| "get Window k =
     (if k = js ''window'' then Window else if k = js ''document'' then Document
      else Undefined)"
| "get _ k = Undefined"


definition isScope :: "js_value \<Rightarrow> bool" where
  "isScope obj \<longleftrightarrow>
     ToBoolean obj \<and> ToBoolean (get obj (js ''$evalAsync'')) \<and> ToBoolean (get obj (js ''$watch''))"


subsection \<open>JSON.stringify with toJsonReplacer as the replacer\<close>







subsection \<open>The text of a JSON tree\<close>














subsection \<open>Member names of a text\<close>




subsection \<open>An engine and a value to run toAngularJSON on\<close>





subsection \<open>Plain data and its serialization without the $$ properties\<close>






section \<open>Properties of isValidJson\<close>

lemma trim_Nil_iff: "trim s = [] \<longleftrightarrow> (\<forall>c\<in>set s. isWhiteSpace c)"
proof
  assume "trim s = []"
  then have all: "\<forall>c\<in>set (dropWhile isWhiteSpace s). isWhiteSpace c"
    by (simp add: trim_def)
  have "dropWhile isWhiteSpace s = []"
  proof (rule ccontr)
    assume ne: "dropWhile isWhiteSpace s \<noteq> []"
    then have "\<not> isWhiteSpace (hd (dropWhile isWhiteSpace s))"
      by (rule hd_dropWhile)
    with ne all show False by auto
  qed
  then show "\<forall>c\<in>set s. isWhiteSpace c"
    by simp
next
  assume "\<forall>c\<in>set s. isWhiteSpace c"
  then show "trim s = []"
    unfolding trim_def by (auto dest: set_dropWhileD)
qed

lemma trim_first:
  assumes "dropWhile isWhiteSpace s = c # rest"
  shows "\<exists>rest'. trim s = c # rest'"
proof -
  have nws: "\<not> isWhiteSpace c"
    using assms hd_dropWhile [of isWhiteSpace s] by auto
  have "dropWhile isWhiteSpace (rev rest @ [c]) = dropWhile isWhiteSpace (rev rest) @ [c]
        \<or> dropWhile isWhiteSpace (rev rest @ [c]) = [c]"
    using nws by (simp add: dropWhile_append)
  then obtain ys where "dropWhile isWhiteSpace (rev rest @ [c]) = ys @ [c]"
    by (metis append_Nil)
  then show ?thesis
    using assms by (simp add: trim_def)
qed

text \<open>
  C9. \<open>isValidJson\<close> is true on every empty or whitespace-only string; it is false on
  every string whose first non-whitespace code unit is neither \<open>{\<close> (0x7B) nor \<open>[\<close>
  (0x5B), whatever \<open>JSON.parse\<close> would say of it; and on a string whose first
  non-whitespace code unit is \<open>{\<close> or \<open>[\<close> the answer is whether \<open>JSON.parse\<close>
  accepts the trimmed string.
\<close>

theorem isValidJson_cases:
  fixes JSON_parse :: "js_string \<Rightarrow> 'e + 'v"
  shows "((\<forall>c\<in>set value. isWhiteSpace c) \<longrightarrow> isValidJson JSON_parse value)
       \<and> (dropWhile isWhiteSpace value = c # rest \<and> c \<noteq> 0x7B \<and> c \<noteq> 0x5B
            \<longrightarrow> \<not> isValidJson JSON_parse value)
       \<and> (dropWhile isWhiteSpace value = c # rest \<and> (c = 0x7B \<or> c = 0x5B)
            \<longrightarrow> isValidJson JSON_parse value = (\<not> isl (JSON_parse (trim value))))"
proof (intro conjI impI)
  assume "\<forall>c\<in>set value. isWhiteSpace c"
  then have "trim value = []" by (simp add: trim_Nil_iff)
  then show "isValidJson JSON_parse value" by (simp add: isValidJson_def)
next
  assume a: "dropWhile isWhiteSpace value = c # rest \<and> c \<noteq> 0x7B \<and> c \<noteq> 0x5B"
  then obtain rest' where t: "trim value = c # rest'" using trim_first by blast
  from a have "value \<noteq> []" by auto
  with a t show "\<not> isValidJson JSON_parse value"
    by (simp add: isValidJson_def index_def)
next
  assume a: "dropWhile isWhiteSpace value = c # rest \<and> (c = 0x7B \<or> c = 0x5B)"
  then obtain rest' where t: "trim value = c # rest'" using trim_first by blast
  from a have "value \<noteq> []" by auto
  with a t show "isValidJson JSON_parse value = (\<not> isl (JSON_parse (trim value)))"
    by (auto simp: isValidJson_def index_def split: sum.splits)
qed

theorem isValidJson_cases_witness:
  "list_all isWhiteSpace [0x2028, 0x20, 0xFEFF, 0x0A]
   \<and> isValidJson (\<lambda>s. Inr () :: unit + unit) [0x2028, 0x20, 0xFEFF, 0x0A]
   \<and> dropWhile isWhiteSpace (js '' 1 '') = js ''1 ''
   \<and> \<not> isValidJson (\<lambda>s. Inr () :: unit + unit) (js '' 1 '')
   \<and> dropWhile isWhiteSpace (js '' {} '') = js ''{} '' \<and> trim (js '' {} '') = js ''{}''
   \<and> isValidJson (\<lambda>s. if s = js ''{}'' then Inr () else Inl ()) (js '' {} '')
   \<and> dropWhile isWhiteSpace (js ''[1,'') = js ''[1,''
   \<and> \<not> isValidJson (\<lambda>s. if s = js ''{}'' then Inr () else Inl ()) (js ''[1,'')"
  using
    isValidJson_cases [of "[0x2028, 0x20, 0xFEFF, 0x0A]" "\<lambda>s. Inr () :: unit + unit"]
    isValidJson_cases [of "js '' 1 ''" "\<lambda>s. Inr () :: unit + unit" "0x31" "js '' ''"]
    isValidJson_cases [of "js '' {} ''" "\<lambda>s. if s = js ''{}'' then Inr () else Inl ()"
      "0x7B" "js ''} ''"]
    isValidJson_cases [of "js ''[1,''" "\<lambda>s. if s = js ''{}'' then Inr () else Inl ()"
      "0x5B" "js ''1,''"]
  by (simp add: js_def isWhiteSpace_def trim_def)

section \<open>Properties of the rule-status route\<close>

lemma callback_Inl: "callback conv k (Inl e) acc = Inl e"
  by (simp add: callback_def)

lemma callback_acc_Inl: "callback conv k (Inr r) (Inl e) = Inl e"
  by (simp add: callback_def)

lemma callback_Inr:
  "callback conv k (Inr r) (Inr m) =
     Inr (m(k \<mapsto> \<lparr> current_status = conv (map_option attributes (index (saved_objects r) 0)),
                   failures = map (\<lambda>errorItem. conv (Some (attributes errorItem)))
                                (drop 1 (saved_objects r)) \<rparr>))"
  by (simp add: callback_def)

lemma length_fetches: "length (fst (fetches f ty ks s)) = length ks"
proof (induction ks arbitrary: s)
  case Nil
  then show ?case by simp
next
  case (Cons k ks)
  obtain found s' where f: "f (find_options_for ty k) s = (found, s')"
    by (cases "f (find_options_for ty k) s")
  show ?case using Cons.IH [of s'] by (cases "fetches f ty ks s'") (simp add: f)
qed

lemma reduce_ids_fetches:
  "reduce_ids f conv ty ks acc s =
     (fold (\<lambda>(k, found). callback conv k found) (zip ks (fst (fetches f ty ks s))) acc,
      snd (fetches f ty ks s))"
  by (induction ks arbitrary: acc s) (auto split: prod.splits)

lemma fold_callback_ok:
  assumes "\<forall>p\<in>set ps. \<not> isl (snd p)"
  shows "\<exists>m'. fold (\<lambda>(k, found). callback conv k found) ps (Inr m) = Inr m'
           \<and> dom m' = dom m \<union> fst ` set ps \<and> (\<forall>k. k \<notin> fst ` set ps \<longrightarrow> m' k = m k)"
  using assms
proof (induction ps arbitrary: m)
  case Nil
  then show ?case by simp
next
  case (Cons p ps)
  obtain k found where p: "p = (k, found)" by (cases p)
  with Cons.prems obtain r where r: "found = Inr r" by (cases found) auto
  obtain m1 where m1: "callback conv k found (Inr m) = Inr m1"
    and dom1: "dom m1 = insert k (dom m)" and same1: "\<forall>k'. k' \<noteq> k \<longrightarrow> m1 k' = m k'"
    by (simp add: r callback_Inr)
  from Cons.prems have "\<forall>p\<in>set ps. \<not> isl (snd p)" by simp
  from Cons.IH [OF this, of m1] obtain m' where
    m': "fold (\<lambda>(k, found). callback conv k found) ps (Inr m1) = Inr m'"
      "dom m' = dom m1 \<union> fst ` set ps"
      "\<forall>k'. k' \<notin> fst ` set ps \<longrightarrow> m' k' = m1 k'"
    by blast
  have "fold (\<lambda>(k, found). callback conv k found) (p # ps) (Inr m) = Inr m'"
    using m'(1) by (simp add: p m1)
  moreover have "dom m' = dom m \<union> fst ` set (p # ps)"
    using m'(2) dom1 by (simp add: p)
  moreover have "\<forall>k'. k' \<notin> fst ` set (p # ps) \<longrightarrow> m' k' = m k'"
    using m'(3) same1 by (simp add: p)
  ultimately show ?case by blast
qed

lemma fold_callback_last_wins:
  assumes "\<forall>p\<in>set ps. \<not> isl (snd p)" and "i < length ps"
    and "fst (ps ! i) \<notin> fst ` set (drop (Suc i) ps)" and "snd (ps ! i) = Inr r"
    and "fold (\<lambda>(k, found). callback conv k found) ps (Inr m) = Inr m'"
  shows "m' (fst (ps ! i)) =
     Some \<lparr> current_status = conv (map_option attributes (index (saved_objects r) 0)),
            failures = map (\<lambda>errorItem. conv (Some (attributes errorItem)))
                         (drop 1 (saved_objects r)) \<rparr>"
  using assms
proof (induction ps arbitrary: m i)
  case Nil
  then show ?case by simp
next
  case (Cons p ps)
  obtain k found where p: "p = (k, found)" by (cases p)
  with Cons.prems(1) obtain r' where r': "found = Inr r'" by (cases found) auto
  have ok: "\<forall>p\<in>set ps. \<not> isl (snd p)" using Cons.prems(1) by simp
  let ?m1 = "m(k \<mapsto> \<lparr> current_status = conv (map_option attributes (index (saved_objects r') 0)),
                   failures = map (\<lambda>errorItem. conv (Some (attributes errorItem)))
                                (drop 1 (saved_objects r')) \<rparr>)"
  have step: "fold (\<lambda>(k, found). callback conv k found) ps (Inr ?m1) = Inr m'"
    using Cons.prems(5) by (simp add: p r' callback_Inr)
  show ?case
  proof (cases i)
    case 0
    then have "k \<notin> fst ` set ps" and "r' = r" using Cons.prems(3,4) by (auto simp: p r')
    moreover from fold_callback_ok [OF ok, of conv ?m1] step
    have "\<forall>k. k \<notin> fst ` set ps \<longrightarrow> m' k = ?m1 k" by auto
    ultimately show ?thesis using 0 by (simp add: p)
  next
    case (Suc j)
    then show ?thesis
      using Cons.IH [OF ok _ _ _ step, of j] Cons.prems(2,3,4) by simp
  qed
qed

lemma fold_callback_failed:
  assumes "j < length ps" and "isl (snd (ps ! j))"
  shows "\<exists>k<length ps. \<exists>e. snd (ps ! k) = Inl e
           \<and> (\<forall>l. k < l \<and> l < length ps \<longrightarrow> \<not> isl (snd (ps ! l)))
           \<and> fold (\<lambda>(k, found). callback conv k found) ps acc = Inl e"
  using assms
proof (induction ps arbitrary: j rule: rev_induct)
  case Nil
  then show ?case by simp
next
  case (snoc p ps)
  obtain k found where p: "p = (k, found)" by (cases p)
  show ?case
  proof (cases found)
    case (Inl e)
    then show ?thesis
      by (intro exI [of _ "length ps"]) (auto simp: p callback_Inl)
  next
    case (Inr r)
    with snoc.prems have j: "j < length ps" "isl (snd (ps ! j))"
      by (auto simp: p nth_append less_Suc_eq split: if_splits)
    from snoc.IH [OF j] obtain k' e where
      k': "k' < length ps" "snd (ps ! k') = Inl e"
          "\<forall>l. k' < l \<and> l < length ps \<longrightarrow> \<not> isl (snd (ps ! l))"
          "fold (\<lambda>(k, found). callback conv k found) ps acc = Inl e"
      by blast
    show ?thesis
      using k' by (intro exI [of _ k']) (auto simp: p Inr nth_append callback_acc_Inl less_Suc_eq)
  qed
qed


lemma zip_fetches_facts:
  assumes "length rs = length ks"
  shows "fst ` set (zip ks rs) = set ks"
    and "fst ` set (drop n (zip ks rs)) = set (drop n ks)"
    and "i < length ks \<Longrightarrow> zip ks rs ! i = (ks ! i, rs ! i)"
proof -
  have "map fst (zip ks rs) = ks" using assms by simp
  then show "fst ` set (zip ks rs) = set ks" by (metis set_map)
  have "map fst (drop n (zip ks rs)) = drop n ks"
    using assms by (simp add: drop_zip)
  then show "fst ` set (drop n (zip ks rs)) = set (drop n ks)" by (metis set_map)
  show "i < length ks \<Longrightarrow> zip ks rs ! i = (ks ! i, rs ! i)" using assms by simp
qed

lemma handler_succeeds:
  assumes gc: "getClients request = Inr cl" and ac: "alertsClient cl = Some c"
    and rs: "fst (fetches (savedObjectsClient_find cl) ty (ids (query request)) s) = rs"
    and ok: "\<forall>r\<in>set rs. \<not> isl r"
  shows "\<exists>statuses.
           handler getClients transformError conv ty request s =
             (Inr (Returned statuses),
              snd (fetches (savedObjectsClient_find cl) ty (ids (query request)) s))
         \<and> dom statuses = set (ids (query request))
         \<and> (\<forall>i<length (ids (query request)).
               ids (query request) ! i \<notin> set (drop (Suc i) (ids (query request))) \<longrightarrow>
               (\<exists>found. rs ! i = Inr found
                 \<and> statuses (ids (query request) ! i) =
                     Some \<lparr> current_status =
                              conv (map_option attributes (index (saved_objects found) 0)),
                            failures = map (\<lambda>errorItem. conv (Some (attributes errorItem)))
                                         (drop 1 (saved_objects found)) \<rparr>))"
proof -
  let ?ks = "ids (query request)"
  let ?ps = "zip ?ks rs"
  let ?cb = "\<lambda>(k, found). callback conv k found"
  have len: "length rs = length ?ks" using rs length_fetches by metis
  have okp: "\<forall>p\<in>set ?ps. \<not> isl (snd p)"
    using ok by (auto dest: set_zip_rightD)
  from fold_callback_ok [OF okp, of conv Map.empty] obtain statuses where
    st: "fold ?cb ?ps (Inr Map.empty) = Inr statuses" "dom statuses = fst ` set ?ps"
    by auto
  have red: "reduce_ids (savedObjectsClient_find cl) conv ty ?ks (Inr Map.empty) s =
      (Inr statuses, snd (fetches (savedObjectsClient_find cl) ty ?ks s))"
    using st(1) rs by (simp add: reduce_ids_fetches)
  have h: "handler getClients transformError conv ty request s =
      (Inr (Returned statuses), snd (fetches (savedObjectsClient_find cl) ty ?ks s))"
    by (simp add: handler_def gc ac red)
  have d: "dom statuses = set ?ks"
    using st(2) zip_fetches_facts(1) [OF len] by simp
  have l: "\<exists>found. rs ! i = Inr found
             \<and> statuses (?ks ! i) =
                 Some \<lparr> current_status =
                          conv (map_option attributes (index (saved_objects found) 0)),
                        failures = map (\<lambda>errorItem. conv (Some (attributes errorItem)))
                                     (drop 1 (saved_objects found)) \<rparr>"
    if i: "i < length ?ks" and last: "?ks ! i \<notin> set (drop (Suc i) ?ks)" for i
  proof -
    have "rs ! i \<in> set rs" using i len by simp
    with ok have "\<not> isl (rs ! i)" by blast
    then obtain found where f: "rs ! i = Inr found"
      by (cases "rs ! i") auto
    have ip: "i < length ?ps" using i len by simp
    have nth: "?ps ! i = (?ks ! i, rs ! i)" using zip_fetches_facts(3) [OF len i] .
    have lastp: "fst (?ps ! i) \<notin> fst ` set (drop (Suc i) ?ps)"
      using last zip_fetches_facts(2) [OF len, of "Suc i"] by (simp add: nth)
    have "snd (?ps ! i) = Inr found" using f by (simp add: nth)
    from fold_callback_last_wins [OF okp ip lastp this st(1)] f show ?thesis
      by (simp add: nth)
  qed
  show ?thesis using h d l by blast
qed

lemma handler_fails:
  assumes gc: "getClients request = Inr cl" and ac: "alertsClient cl = Some c"
    and rs: "fst (fetches (savedObjectsClient_find cl) ty (ids (query request)) s) = rs"
    and j: "j < length (ids (query request))" and bad: "isl (rs ! j)"
  shows "\<exists>k<length (ids (query request)). \<exists>e. rs ! k = Inl e
           \<and> (\<forall>l. k < l \<and> l < length (ids (query request)) \<longrightarrow> \<not> isl (rs ! l))
           \<and> handler getClients transformError conv ty request s =
               (Inr (Response_error (message (transformError e)) (statusCode (transformError e))
                      (statusCode (transformError e))),
                snd (fetches (savedObjectsClient_find cl) ty (ids (query request)) s))"
proof -
  let ?ks = "ids (query request)"
  let ?ps = "zip ?ks rs"
  let ?cb = "\<lambda>(k, found). callback conv k found"
  have len: "length rs = length ?ks" using rs length_fetches by metis
  have jp: "j < length ?ps" using j len by simp
  have "isl (snd (?ps ! j))" using bad j len by simp
  from fold_callback_failed [OF jp this, of conv "Inr Map.empty"] obtain k e where
    k: "k < length ?ps" "snd (?ps ! k) = Inl e"
       "\<forall>l. k < l \<and> l < length ?ps \<longrightarrow> \<not> isl (snd (?ps ! l))"
       "fold ?cb ?ps (Inr Map.empty) = Inl e"
    by blast
  have red: "reduce_ids (savedObjectsClient_find cl) conv ty ?ks (Inr Map.empty) s =
      (Inl e, snd (fetches (savedObjectsClient_find cl) ty ?ks s))"
    using k(4) rs by (simp add: reduce_ids_fetches)
  have h: "handler getClients transformError conv ty request s =
      (Inr (Response_error (message (transformError e)) (statusCode (transformError e))
             (statusCode (transformError e))),
       snd (fetches (savedObjectsClient_find cl) ty ?ks s))"
    by (simp add: handler_def gc ac red Let_def)
  have "k < length ?ks" "rs ! k = Inl e" using k(1,2) len by simp_all
  moreover have "\<forall>l. k < l \<and> l < length ?ks \<longrightarrow> \<not> isl (rs ! l)"
    using k(3) len by simp
  ultimately show ?thesis using h by blast
qed

text \<open>
  C1. When every fetch succeeds and the (last) fetch for an id returns a non-empty page,
  the entry of that id has the converted record at position 0 as its current status and
  the converted records from position 1 on, in the order of the page, as its failures.
  The fetch asks for a page of 6 records sorted by \<open>statusDate\<close>, descending, so on a
  page of at most \<open>perPage\<close> records the failures are the records at positions 1..5, at
  most 5 of them.
\<close>

theorem find_statuses_current_and_failures:
  assumes "getClients request = Inr cl" and "alertsClient cl = Some c"
    and "fst (fetches (savedObjectsClient_find cl) ty (ids (query request)) s) = rs"
    and "\<forall>r\<in>set rs. \<not> isl r"
    and "i < length (ids (query request))"
    and "ids (query request) ! i \<notin> set (drop (Suc i) (ids (query request)))"
    and "rs ! i = Inr found" and "saved_objects found \<noteq> []"
  shows "\<exists>statuses entry.
       fst (handler getClients transformError conv ty request s) = Inr (Returned statuses)
     \<and> statuses (ids (query request) ! i) = Some entry
     \<and> current_status entry = conv (Some (attributes (saved_objects found ! 0)))
     \<and> failures entry =
         map (\<lambda>errorItem. conv (Some (attributes errorItem))) (drop 1 (saved_objects found))
     \<and> (length (saved_objects found) \<le> perPage (find_options_for ty (ids (query request) ! i))
          \<longrightarrow> length (failures entry) \<le> 5
            \<and> failures entry =
                map (\<lambda>errorItem. conv (Some (attributes errorItem)))
                  (take 5 (drop 1 (saved_objects found))))
     \<and> perPage (find_options_for ty (ids (query request) ! i)) = 6
     \<and> sortField (find_options_for ty (ids (query request) ! i)) = ''statusDate''
     \<and> sortOrder (find_options_for ty (ids (query request) ! i)) = ''desc''
     \<and> search (find_options_for ty (ids (query request) ! i)) = ids (query request) ! i"
proof -
  from handler_succeeds [where getClients = getClients and request = request
      and transformError = transformError and conv = conv, OF assms(1-4)] assms(5,6,7)
  obtain statuses where
    h: "fst (handler getClients transformError conv ty request s) = Inr (Returned statuses)"
    and e: "statuses (ids (query request) ! i) =
       Some \<lparr> current_status = conv (map_option attributes (index (saved_objects found) 0)),
              failures = map (\<lambda>errorItem. conv (Some (attributes errorItem)))
                           (drop 1 (saved_objects found)) \<rparr>"
    by fastforce
  have c: "map_option attributes (index (saved_objects found) 0) =
      Some (attributes (saved_objects found ! 0))"
    using assms(8) by (simp add: index_def)
  show ?thesis
    using h e c by (auto simp: find_options_for_def)
qed

theorem find_statuses_current_and_failures_witness:
  "\<exists>statuses entry.
     fst (handler (example_getClients True) example_transformError (\<lambda>x. x) ''status''
            (example_request [''rule-1'', ''rule-2'', ''rule-1'']) 0) = Inr (Returned statuses)
   \<and> statuses ''rule-1'' = Some entry
   \<and> current_status entry = Some ''r1z''
   \<and> failures entry = [Some ''r1a'', Some ''r1b'', Some ''r1c'']
   \<and> length (failures entry) \<le> 5"
  using find_statuses_current_and_failures
    [where getClients = "example_getClients True"
       and request = "example_request [''rule-1'', ''rule-2'', ''rule-1'']"
       and cl = "\<lparr> alertsClient = Some (), savedObjectsClient_find = example_find \<rparr>"
       and c = "()" and ty = "''status''" and s = 0 and i = 2
       and rs = "[Inr (example_page [''r1a'', ''r1b'', ''r1c'']), Inr (example_page []),
                  Inr (example_page [''r1z'', ''r1a'', ''r1b'', ''r1c''])]"
       and found = "example_page [''r1z'', ''r1a'', ''r1b'', ''r1c'']"
       and transformError = example_transformError and conv = "\<lambda>x. x"]
  by (simp add: example_defs) blast

text \<open>
  C2. When every fetch succeeds and the (last) fetch for an id returns no record, the
  mapping still has an entry for that id, with an absent current status and no failures.
\<close>

theorem find_statuses_no_records:
  assumes "getClients request = Inr cl" and "alertsClient cl = Some c"
    and "fst (fetches (savedObjectsClient_find cl) ty (ids (query request)) s) = rs"
    and "\<forall>r\<in>set rs. \<not> isl r"
    and "i < length (ids (query request))"
    and "ids (query request) ! i \<notin> set (drop (Suc i) (ids (query request)))"
    and "rs ! i = Inr found" and "saved_objects found = []"
  shows "\<exists>statuses.
       fst (handler getClients transformError (convertToSnakeCase snake_keys) ty request s) =
         Inr (Returned statuses)
     \<and> ids (query request) ! i \<in> dom statuses
     \<and> statuses (ids (query request) ! i) = Some \<lparr> current_status = None, failures = [] \<rparr>"
proof -
  from handler_succeeds [where getClients = getClients and request = request
      and transformError = transformError and conv = "convertToSnakeCase snake_keys",
      OF assms(1-4)] assms(5,6,7)
  obtain statuses where
    h: "fst (handler getClients transformError (convertToSnakeCase snake_keys) ty request s) =
          Inr (Returned statuses)"
    and e: "statuses (ids (query request) ! i) =
       Some \<lparr> current_status =
                convertToSnakeCase snake_keys
                  (map_option attributes (index (saved_objects found) 0)),
              failures = map (\<lambda>errorItem. convertToSnakeCase snake_keys
                                             (Some (attributes errorItem)))
                           (drop 1 (saved_objects found)) \<rparr>"
    by fastforce
  show ?thesis
    using h e assms(8) by (auto simp: index_def convertToSnakeCase_def)
qed

theorem find_statuses_no_records_witness:
  "\<exists>statuses.
     fst (handler (example_getClients True) example_transformError
            (convertToSnakeCase (\<lambda>x. x)) ''status''
            (example_request [''rule-1'', ''rule-2'']) 0) = Inr (Returned statuses)
   \<and> ''rule-2'' \<in> dom statuses
   \<and> statuses ''rule-2'' = Some \<lparr> current_status = None, failures = [] \<rparr>"
  using find_statuses_no_records
    [where getClients = "example_getClients True"
       and request = "example_request [''rule-1'', ''rule-2'']"
       and cl = "\<lparr> alertsClient = Some (), savedObjectsClient_find = example_find \<rparr>"
       and c = "()" and ty = "''status''" and s = 0 and i = 1
       and rs = "[Inr (example_page [''r1a'', ''r1b'', ''r1c'']), Inr (example_page [])]"
       and found = "example_page []"
       and transformError = example_transformError and snake_keys = "\<lambda>x. x"]
  by (simp add: example_defs)

text \<open>
  C3. When every fetch succeeds, the keys of the returned mapping are exactly the ids of
  the request, and the entry of an id is built from the answer to the fetch of its last
  occurrence in \<open>ids\<close>: a later occurrence overwrites an earlier one.
\<close>

theorem find_statuses_keys:
  assumes "getClients request = Inr cl" and "alertsClient cl = Some c"
    and "fst (fetches (savedObjectsClient_find cl) ty (ids (query request)) s) = rs"
    and "\<forall>r\<in>set rs. \<not> isl r"
  shows "\<exists>statuses.
       fst (handler getClients transformError conv ty request s) = Inr (Returned statuses)
     \<and> dom statuses = set (ids (query request))
     \<and> (\<forall>i<length (ids (query request)).
           ids (query request) ! i \<notin> set (drop (Suc i) (ids (query request))) \<longrightarrow>
           (\<exists>found. rs ! i = Inr found
             \<and> statuses (ids (query request) ! i) =
                 Some \<lparr> current_status =
                          conv (map_option attributes (index (saved_objects found) 0)),
                        failures = map (\<lambda>errorItem. conv (Some (attributes errorItem)))
                                     (drop 1 (saved_objects found)) \<rparr>))"
proof -
  from handler_succeeds [where getClients = getClients and request = request
      and transformError = transformError and conv = conv, OF assms]
  obtain statuses where
    "handler getClients transformError conv ty request s =
       (Inr (Returned statuses),
        snd (fetches (savedObjectsClient_find cl) ty (ids (query request)) s))"
    and "dom statuses = set (ids (query request))"
    and "\<forall>i<length (ids (query request)).
           ids (query request) ! i \<notin> set (drop (Suc i) (ids (query request))) \<longrightarrow>
           (\<exists>found. rs ! i = Inr found
             \<and> statuses (ids (query request) ! i) =
                 Some \<lparr> current_status =
                          conv (map_option attributes (index (saved_objects found) 0)),
                        failures = map (\<lambda>errorItem. conv (Some (attributes errorItem)))
                                     (drop 1 (saved_objects found)) \<rparr>)"
    by blast
  then show ?thesis by (intro exI [of _ statuses]) simp
qed

theorem find_statuses_keys_witness:
  "(\<exists>statuses.
     fst (handler (example_getClients True) example_transformError (\<lambda>x. x) ''status''
            (example_request [''rule-1'', ''rule-2'', ''rule-1'']) 0) = Inr (Returned statuses)
   \<and> dom statuses = set (ids (query (example_request [''rule-1'', ''rule-2'', ''rule-1''])))
   \<and> (\<forall>i<length (ids (query (example_request [''rule-1'', ''rule-2'', ''rule-1'']))).
         ids (query (example_request [''rule-1'', ''rule-2'', ''rule-1''])) ! i
           \<notin> set (drop (Suc i)
                 (ids (query (example_request [''rule-1'', ''rule-2'', ''rule-1''])))) \<longrightarrow>
         (\<exists>found.
            [Inr (example_page [''r1a'', ''r1b'', ''r1c'']), Inr (example_page []),
             Inr (example_page [''r1z'', ''r1a'', ''r1b'', ''r1c''])] ! i
              = (Inr found :: string + string find_response)
          \<and> statuses (ids (query (example_request [''rule-1'', ''rule-2'', ''rule-1''])) ! i) =
              Some \<lparr> current_status = map_option attributes (index (saved_objects found) 0),
                     failures = map (\<lambda>errorItem. Some (attributes errorItem))
                                  (drop 1 (saved_objects found)) \<rparr>)))
 \<and> (\<exists>statuses.
     fst (handler (example_getClients True) example_transformError (\<lambda>x. x) ''status''
            (example_request [''rule-1'', ''rule-2'', ''rule-1'']) 0) = Inr (Returned statuses)
   \<and> statuses ''rule-1'' =
       Some \<lparr> current_status = Some ''r1z'',
              failures = [Some ''r1a'', Some ''r1b'', Some ''r1c''] \<rparr>
   \<and> statuses ''rule-2'' = Some \<lparr> current_status = None, failures = [] \<rparr>
   \<and> statuses ''rule-3'' = None)"
proof (rule conjI)
  show "\<exists>statuses.
     fst (handler (example_getClients True) example_transformError (\<lambda>x. x) ''status''
            (example_request [''rule-1'', ''rule-2'', ''rule-1'']) 0) = Inr (Returned statuses)
   \<and> dom statuses = set (ids (query (example_request [''rule-1'', ''rule-2'', ''rule-1''])))
   \<and> (\<forall>i<length (ids (query (example_request [''rule-1'', ''rule-2'', ''rule-1'']))).
         ids (query (example_request [''rule-1'', ''rule-2'', ''rule-1''])) ! i
           \<notin> set (drop (Suc i)
                 (ids (query (example_request [''rule-1'', ''rule-2'', ''rule-1''])))) \<longrightarrow>
         (\<exists>found.
            [Inr (example_page [''r1a'', ''r1b'', ''r1c'']), Inr (example_page []),
             Inr (example_page [''r1z'', ''r1a'', ''r1b'', ''r1c''])] ! i
              = (Inr found :: string + string find_response)
          \<and> statuses (ids (query (example_request [''rule-1'', ''rule-2'', ''rule-1''])) ! i) =
              Some \<lparr> current_status = map_option attributes (index (saved_objects found) 0),
                     failures = map (\<lambda>errorItem. Some (attributes errorItem))
                                  (drop 1 (saved_objects found)) \<rparr>))"
    by (rule find_statuses_keys
      [where getClients = "example_getClients True"
         and request = "example_request [''rule-1'', ''rule-2'', ''rule-1'']"
         and cl = "\<lparr> alertsClient = Some (), savedObjectsClient_find = example_find \<rparr>"
         and c = "()"])
      (simp_all add: example_defs)
next
  show "\<exists>statuses.
     fst (handler (example_getClients True) example_transformError (\<lambda>x. x) ''status''
            (example_request [''rule-1'', ''rule-2'', ''rule-1'']) 0) = Inr (Returned statuses)
   \<and> statuses ''rule-1'' =
       Some \<lparr> current_status = Some ''r1z'',
              failures = [Some ''r1a'', Some ''r1b'', Some ''r1c''] \<rparr>
   \<and> statuses ''rule-2'' = Some \<lparr> current_status = None, failures = [] \<rparr>
   \<and> statuses ''rule-3'' = None"
    by (simp add: handler_def callback_def index_def example_defs)
qed

text \<open>
  C4. When the fetch of some id fails, the handler returns no mapping: it answers with
  \<open>{message, status_code}\<close> and the code, all taken from \<open>transformError\<close> of a failure
  of the store (that of the last fetch that failed). Each id of the request has been
  fetched once, whether its fetch or an earlier one failed or not: nothing is retried.
\<close>

theorem find_statuses_fetch_fails:
  assumes "getClients request = Inr cl" and "alertsClient cl = Some c"
    and "fst (fetches (savedObjectsClient_find cl) ty (ids (query request)) s) = rs"
    and "j < length (ids (query request))" and "isl (rs ! j)"
  shows "\<exists>k<length (ids (query request)). \<exists>e.
       rs ! k = Inl e
     \<and> (\<forall>l. k < l \<and> l < length (ids (query request)) \<longrightarrow> \<not> isl (rs ! l))
     \<and> fst (handler getClients transformError conv ty request s) =
         Inr (Response_error (message (transformError e)) (statusCode (transformError e))
                (statusCode (transformError e)))
     \<and> (\<forall>statuses. fst (handler getClients transformError conv ty request s) \<noteq>
           Inr (Returned statuses))
     \<and> snd (handler getClients transformError conv ty request s) =
         snd (fetches (savedObjectsClient_find cl) ty (ids (query request)) s)
     \<and> length rs = length (ids (query request))"
proof -
  from handler_fails [where getClients = getClients and request = request
      and transformError = transformError and conv = conv, OF assms]
  obtain k e where k: "k < length (ids (query request))" "rs ! k = Inl e"
    "\<forall>l. k < l \<and> l < length (ids (query request)) \<longrightarrow> \<not> isl (rs ! l)"
    "handler getClients transformError conv ty request s =
       (Inr (Response_error (message (transformError e)) (statusCode (transformError e))
              (statusCode (transformError e))),
        snd (fetches (savedObjectsClient_find cl) ty (ids (query request)) s))"
    by blast
  have "length rs = length (ids (query request))"
    using assms(3) length_fetches by metis
  with k show ?thesis
    by (intro exI [of _ k] conjI exI [of _ e]) simp_all
qed

theorem find_statuses_fetch_fails_witness:
  "(\<exists>k<length (ids (query (example_request [''rule-3'', ''rule-1'', ''rule-4'', ''rule-2'']))).
     \<exists>e. [Inl ''rule-3'', Inr (example_page [''r1a'', ''r1b'', ''r1c'']), Inl ''rule-4'',
          Inr (example_page [])] ! k = Inl e
     \<and> (\<forall>l. k < l
            \<and> l < length (ids (query (example_request
                                        [''rule-3'', ''rule-1'', ''rule-4'', ''rule-2'']))) \<longrightarrow>
           \<not> isl ([Inl ''rule-3'', Inr (example_page [''r1a'', ''r1b'', ''r1c'']),
                    Inl ''rule-4'', Inr (example_page [])] ! l))
     \<and> fst (handler (example_getClients True) example_transformError (\<lambda>x. x) ''status''
              (example_request [''rule-3'', ''rule-1'', ''rule-4'', ''rule-2'']) 0) =
         Inr (Response_error (message (example_transformError e))
                (statusCode (example_transformError e)) (statusCode (example_transformError e)))
     \<and> (\<forall>statuses.
           fst (handler (example_getClients True) example_transformError (\<lambda>x. x) ''status''
                  (example_request [''rule-3'', ''rule-1'', ''rule-4'', ''rule-2'']) 0) \<noteq>
           Inr (Returned statuses))
     \<and> snd (handler (example_getClients True) example_transformError (\<lambda>x. x) ''status''
              (example_request [''rule-3'', ''rule-1'', ''rule-4'', ''rule-2'']) 0) =
         snd (fetches (savedObjectsClient_find
                \<lparr> alertsClient = Some (), savedObjectsClient_find = example_find \<rparr>) ''status''
                (ids (query (example_request [''rule-3'', ''rule-1'', ''rule-4'', ''rule-2''])))
                0)
     \<and> length [Inl ''rule-3'', Inr (example_page [''r1a'', ''r1b'', ''r1c'']), Inl ''rule-4'',
                Inr (example_page [])] =
         length (ids (query (example_request [''rule-3'', ''rule-1'', ''rule-4'', ''rule-2'']))))
 \<and> handler (example_getClients True) example_transformError (\<lambda>x. x) ''status''
      (example_request [''rule-3'', ''rule-1'', ''rule-4'', ''rule-2'']) 0 =
    (Inr (Response_error ''rule-4'' 500 500), 4)"
proof (rule conjI)
  show "\<exists>k<length (ids (query (example_request [''rule-3'', ''rule-1'', ''rule-4'', ''rule-2'']))).
     \<exists>e. [Inl ''rule-3'', Inr (example_page [''r1a'', ''r1b'', ''r1c'']), Inl ''rule-4'',
          Inr (example_page [])] ! k = Inl e
     \<and> (\<forall>l. k < l
            \<and> l < length (ids (query (example_request
                                        [''rule-3'', ''rule-1'', ''rule-4'', ''rule-2'']))) \<longrightarrow>
           \<not> isl ([Inl ''rule-3'', Inr (example_page [''r1a'', ''r1b'', ''r1c'']),
                    Inl ''rule-4'', Inr (example_page [])] ! l))
     \<and> fst (handler (example_getClients True) example_transformError (\<lambda>x. x) ''status''
              (example_request [''rule-3'', ''rule-1'', ''rule-4'', ''rule-2'']) 0) =
         Inr (Response_error (message (example_transformError e))
                (statusCode (example_transformError e)) (statusCode (example_transformError e)))
     \<and> (\<forall>statuses.
           fst (handler (example_getClients True) example_transformError (\<lambda>x. x) ''status''
                  (example_request [''rule-3'', ''rule-1'', ''rule-4'', ''rule-2'']) 0) \<noteq>
           Inr (Returned statuses))
     \<and> snd (handler (example_getClients True) example_transformError (\<lambda>x. x) ''status''
              (example_request [''rule-3'', ''rule-1'', ''rule-4'', ''rule-2'']) 0) =
         snd (fetches (savedObjectsClient_find
                \<lparr> alertsClient = Some (), savedObjectsClient_find = example_find \<rparr>) ''status''
                (ids (query (example_request [''rule-3'', ''rule-1'', ''rule-4'', ''rule-2''])))
                0)
     \<and> length [Inl ''rule-3'', Inr (example_page [''r1a'', ''r1b'', ''r1c'']), Inl ''rule-4'',
                Inr (example_page [])] =
         length (ids (query (example_request [''rule-3'', ''rule-1'', ''rule-4'', ''rule-2''])))"
    by (rule find_statuses_fetch_fails
      [where getClients = "example_getClients True" and c = "()" and j = 0])
      (simp_all add: example_defs)
next
  show "handler (example_getClients True) example_transformError (\<lambda>x. x) ''status''
      (example_request [''rule-3'', ''rule-1'', ''rule-4'', ''rule-2'']) 0 =
    (Inr (Response_error ''rule-4'' 500 500), 4)"
    by (simp add: handler_def callback_def example_defs)
qed

text \<open>
  C8. Without an alerts client the handler answers 404 and no mapping, and the store is
  as it was: nothing has been fetched.
\<close>

theorem find_statuses_no_alerts_client:
  assumes "getClients request = Inr cl" and "alertsClient cl = None"
  shows "handler getClients transformError conv ty request s = (Inr (Response_code 404), s)"
  using assms by (simp add: handler_def)

theorem find_statuses_no_alerts_client_witness:
  "handler (example_getClients False) example_transformError (\<lambda>x. x) ''status''
     (example_request [''rule-1'', ''rule-2'']) 0 = (Inr (Response_code 404), 0)"
  using find_statuses_no_alerts_client
    [where getClients = "example_getClients False"
       and request = "example_request [''rule-1'', ''rule-2'']"
       and cl = "\<lparr> alertsClient = None, savedObjectsClient_find = example_find \<rparr>"
       and transformError = example_transformError and conv = "\<lambda>x. x" and ty = "''status''"
       and s = 0]
  by (simp add: example_defs)

section \<open>Properties of the annotation routes\<close>

text \<open>
  C5. When the feature-availability check answers \<open>false\<close>, the upsert and the delete
  handler both answer with the wrapped bad-request error of the fixed message, whatever
  the request is; the answer does not depend on the annotation service, and the state is
  the one the check left: the service has not been called.
\<close>

theorem annotations_feature_unavailable:
  assumes "isAnnotationsFeatureAvailable deps s = (Inr False, s')"
  shows "indexAnnotation_handler deps service request s =
           (response_customError (wrapError deps (Boom_badRequest deps
              (i18n_translate deps
                 ''xpack.ml.routes.annotations.annotationsFeatureUnavailableErrorMessage''
                 ''Index and aliases required for the annotations feature have not been created or are not accessible for the current user.''))), s')
       \<and> deleteAnnotation_handler deps service request' s =
           (response_customError (wrapError deps (Boom_badRequest deps
              (i18n_translate deps
                 ''xpack.ml.routes.annotations.annotationsFeatureUnavailableErrorMessage''
                 ''Index and aliases required for the annotations feature have not been created or are not accessible for the current user.''))), s')"
  using assms
  by (simp add: indexAnnotation_handler_def deleteAnnotation_handler_def
      getAnnotationsFeatureUnavailableErrorMessage_def)

theorem annotations_feature_unavailable_witness:
  "indexAnnotation_handler (example_imports (Inr False) None) example_service
     \<lparr> body = ''note'' \<rparr> [] =
     (response_customError
        (''400 Index and aliases required for the annotations feature have not been created or are not accessible for the current user.'', 400),
      [''isAnnotationsFeatureAvailable''])
   \<and> deleteAnnotation_handler (example_imports (Inr False) None) example_service
     \<lparr> params = \<lparr> annotationId = ''a1'' \<rparr> \<rparr> [] =
     (response_customError
        (''400 Index and aliases required for the annotations feature have not been created or are not accessible for the current user.'', 400),
      [''isAnnotationsFeatureAvailable''])"
  using annotations_feature_unavailable
    [where deps = "example_imports (Inr False) None" and s = "[]"
       and s' = "[''isAnnotationsFeatureAvailable'']" and service = example_service
       and request = "\<lparr> body = ''note'' \<rparr>"
       and request' = "\<lparr> params = \<lparr> annotationId = ''a1'' \<rparr> \<rparr>"]
  by (simp add: example_routes_defs)

text \<open>
  C6. When the feature is available and \<open>getCurrentUser\<close> gives no user, the upsert
  handler calls \<open>indexAnnotation\<close> with \<open>ANNOTATION_USER_UNKNOWN\<close> as the user name, and
  answers with what that call gives.
\<close>

theorem index_annotation_unknown_user:
  assumes "isAnnotationsFeatureAvailable deps s = (Inr True, s')"
    and "getCurrentUser deps request = None"
  shows "indexAnnotation_handler deps service request s =
           (case indexAnnotation service (body request) (ANNOTATION_USER_UNKNOWN deps) s' of
              (Inr resp, s'') \<Rightarrow> (response_ok resp, s'')
            | (Inl e, s'') \<Rightarrow> (response_customError (wrapError deps e), s''))"
  using assms by (simp add: indexAnnotation_handler_def or_else_def)

theorem index_annotation_unknown_user_witness:
  "indexAnnotation_handler (example_imports (Inr True) None) example_service
     \<lparr> body = ''note'' \<rparr> [] =
     (response_ok ''indexed for <user unknown>'',
      [''isAnnotationsFeatureAvailable'', ''indexAnnotation''])"
  using index_annotation_unknown_user
    [where deps = "example_imports (Inr True) None" and s = "[]"
       and s' = "[''isAnnotationsFeatureAvailable'']" and service = example_service
       and request = "\<lparr> body = ''note'' \<rparr>"]
  by (simp add: example_routes_defs)

text \<open>
  C7. Whichever call of a handler fails (the search, the feature-availability check, the
  upsert, the delete) the handler answers \<open>response.customError(wrapError(e))\<close> for the
  error \<open>e\<close> of that call, and the state is the one that call left: no call is made
  again and none is made after the failure.
\<close>

theorem annotations_delegate_error:
  "(getAnnotations service (body search_request) s = (Inl e, s') \<longrightarrow>
      getAnnotations_handler deps service search_request s =
        (response_customError (wrapError deps e), s'))
 \<and> (isAnnotationsFeatureAvailable deps s = (Inl e, s') \<longrightarrow>
      indexAnnotation_handler deps service index_request s =
        (response_customError (wrapError deps e), s')
    \<and> deleteAnnotation_handler deps service delete_request s =
        (response_customError (wrapError deps e), s'))
 \<and> (isAnnotationsFeatureAvailable deps s = (Inr True, t)
    \<and> indexAnnotation service (body index_request)
         (or_else (map_option username (getCurrentUser deps index_request))
            (ANNOTATION_USER_UNKNOWN deps)) t = (Inl e, s') \<longrightarrow>
      indexAnnotation_handler deps service index_request s =
        (response_customError (wrapError deps e), s'))
 \<and> (isAnnotationsFeatureAvailable deps s = (Inr True, t)
    \<and> deleteAnnotation service (annotationId (params delete_request)) t = (Inl e, s') \<longrightarrow>
      deleteAnnotation_handler deps service delete_request s =
        (response_customError (wrapError deps e), s'))"
  by (simp add: getAnnotations_handler_def indexAnnotation_handler_def
      deleteAnnotation_handler_def)

theorem annotations_delegate_error_witness:
  "getAnnotations_handler (example_imports (Inr True) None) example_service
     \<lparr> body = ''bad'' \<rparr> [] =
     (response_customError (''search failed'', 500), [''getAnnotations''])
 \<and> indexAnnotation_handler (example_imports (Inl ''no cluster'') None) example_service
     \<lparr> body = ''note'' \<rparr> [] =
     (response_customError (''no cluster'', 500), [''isAnnotationsFeatureAvailable''])
 \<and> deleteAnnotation_handler (example_imports (Inl ''no cluster'') None) example_service
     \<lparr> params = \<lparr> annotationId = ''a1'' \<rparr> \<rparr> [] =
     (response_customError (''no cluster'', 500), [''isAnnotationsFeatureAvailable''])
 \<and> indexAnnotation_handler (example_imports (Inr True) (Some \<lparr> username = ''elastic'' \<rparr>))
     example_service \<lparr> body = ''bad'' \<rparr> [] =
     (response_customError (''index failed'', 500),
      [''isAnnotationsFeatureAvailable'', ''indexAnnotation''])
 \<and> deleteAnnotation_handler (example_imports (Inr True) None) example_service
     \<lparr> params = \<lparr> annotationId = ''bad'' \<rparr> \<rparr> [] =
     (response_customError (''delete failed'', 500),
      [''isAnnotationsFeatureAvailable'', ''deleteAnnotation''])"
  using
    annotations_delegate_error
      [where deps = "example_imports (Inr True) None" and service = example_service
         and search_request = "\<lparr> body = ''bad'' \<rparr>" and s = "[]" and e = "''search failed''"
         and s' = "[''getAnnotations'']"
         and delete_request = "\<lparr> params = \<lparr> annotationId = ''bad'' \<rparr> \<rparr>"
         and index_request = "\<lparr> body = ''bad'' \<rparr>" and t = "[]"]
    annotations_delegate_error
      [where deps = "example_imports (Inl ''no cluster'') None" and service = example_service
         and search_request = "\<lparr> body = ''q'' \<rparr>" and s = "[]" and e = "''no cluster''"
         and s' = "[''isAnnotationsFeatureAvailable'']"
         and delete_request = "\<lparr> params = \<lparr> annotationId = ''a1'' \<rparr> \<rparr>"
         and index_request = "\<lparr> body = ''note'' \<rparr>" and t = "[]"]
    annotations_delegate_error
      [where deps = "example_imports (Inr True) (Some \<lparr> username = ''elastic'' \<rparr>)"
         and service = example_service
         and search_request = "\<lparr> body = ''q'' \<rparr>" and s = "[]" and e = "''index failed''"
         and s' = "[''isAnnotationsFeatureAvailable'', ''indexAnnotation'']"
         and delete_request = "\<lparr> params = \<lparr> annotationId = ''a1'' \<rparr> \<rparr>"
         and index_request = "\<lparr> body = ''bad'' \<rparr>"
         and t = "[''isAnnotationsFeatureAvailable'']"]
    annotations_delegate_error
      [where deps = "example_imports (Inr True) None" and service = example_service
         and search_request = "\<lparr> body = ''q'' \<rparr>" and s = "[]" and e = "''delete failed''"
         and s' = "[''isAnnotationsFeatureAvailable'', ''deleteAnnotation'']"
         and delete_request = "\<lparr> params = \<lparr> annotationId = ''bad'' \<rparr> \<rparr>"
         and index_request = "\<lparr> body = ''note'' \<rparr>"
         and t = "[''isAnnotationsFeatureAvailable'']"]
  by (simp add: example_routes_defs or_else_def)

section \<open>Properties of toAngularJSON\<close>






































lemma isScope_object: "isScope v \<Longrightarrow> \<exists>props. v = Object props"
  by (cases v) (auto simp: isScope_def js_def)









end
